theory Spec2Isabelle
  imports Complex_Main
begin

section \<open>Traffic capture: the classification pipeline of scripts/traffic-capture.py\<close>

text \<open>
  The texts that the classifier and the summary handle (addresses, names of services and
  categories) are modelled as \<^typ>\<open>string\<close>; all of them are ASCII. A capture line is
  a \<open>str\<close> of any code points and is modelled as the list of its code points, so that the
  patterns of the parser match what they match in Python.
\<close>

subsection \<open>String operations\<close>

text \<open>\<open>s.startswith(p)\<close>\<close>

fun startswith :: "'a list \<Rightarrow> 'a list \<Rightarrow> bool" where
  "startswith s [] = True"
| "startswith [] (p # ps) = False"
| "startswith (c # cs) (p # ps) = (c = p \<and> startswith cs ps)"

text \<open>\<open>p in s\<close>: \<open>p\<close> occurs in \<open>s\<close> as a contiguous substring.\<close>

fun contains :: "string \<Rightarrow> string \<Rightarrow> bool" where
  "contains p [] = (p = [])"
| "contains p (c # cs) = (startswith (c # cs) p \<or> contains p cs)"

text \<open>
  \<open>s.lower()\<close>, on the ASCII letters. A character outside ASCII is left as it is:
  Python maps some of them to lower case, two of them to text with an ASCII letter
  (U+212A to \<open>k\<close>, U+0130 to \<open>i\<close> and a combining dot). No signature contains \<open>k\<close> or
  \<open>i\<close>, and \<open>categorize_activity\<close> is applied to the names of the table and to
  \<open>Unknown\<close>, which are ASCII.
\<close>

definition lower_char :: "char \<Rightarrow> char" where
  "lower_char c =
     (let n = (of_char c :: nat) in if 65 \<le> n \<and> n \<le> 90 then char_of (n + 32) else c)"

definition lower :: "string \<Rightarrow> string" where
  "lower s = map lower_char s"

text \<open>\<open>str(n)\<close> of a natural number.\<close>

fun str_nat :: "nat \<Rightarrow> string" where
  "str_nat n =
     (if n < 10 then [char_of (48 + n)] else str_nat (n div 10) @ [char_of (48 + n mod 10)])"

declare str_nat.simps [simp del]

subsection \<open>Dictionaries\<close>

text \<open>
  A Python \<open>dict\<close> keeps its keys in the order of their first insertion; a store to a key
  that is already present replaces the value and leaves the key where it is. A dictionary is
  therefore an association list with distinct keys. \<open>dd_update k dflt f d\<close> is
  \<open>d[k] = f(d[k])\<close> on a \<open>defaultdict\<close> whose factory gives \<open>dflt\<close>.
\<close>

fun dd_update :: "'k \<Rightarrow> 'v \<Rightarrow> ('v \<Rightarrow> 'v) \<Rightarrow> ('k \<times> 'v) list \<Rightarrow> ('k \<times> 'v) list" where
  "dd_update k dflt f [] = [(k, f dflt)]"
| "dd_update k dflt f ((k', v) # d) =
     (if k' = k then (k', f v) # d else (k', v) # dd_update k dflt f d)"

text \<open>\<open>d[k] = v\<close>\<close>

definition dict_set :: "('k \<times> 'v) list \<Rightarrow> 'k \<times> 'v \<Rightarrow> ('k \<times> 'v) list" where
  "dict_set d kv = dd_update (fst kv) (snd kv) (\<lambda>_. snd kv) d"

text \<open>A dictionary display \<open>{k1: v1, k2: v2, ...}\<close> stores its entries from left to right.\<close>

definition dict_display :: "('k \<times> 'v) list \<Rightarrow> ('k \<times> 'v) list" where
  "dict_display entries = foldl dict_set [] entries"

subsection \<open>The two tables\<close>

text \<open>The entries of the \<open>SERVICE_SIGNATURES\<close> display as they are written, duplicates included.\<close>

definition SERVICE_SIGNATURES_entries :: "(string \<times> string) list" where
  "SERVICE_SIGNATURES_entries =
    [(''face:b00c'', ''Meta (Facebook/Instagram/WhatsApp)''),
     (''157.240.'', ''Meta (Facebook/Instagram/WhatsApp)''),
     (''31.13.'', ''Meta (Facebook/Instagram/WhatsApp)''),
     (''69.63.'', ''Meta (Facebook)''),
     (''69.171.'', ''Meta (Facebook)''),
     (''142.250.'', ''Google''),
     (''172.217.'', ''Google''),
     (''216.58.'', ''Google''),
     (''142.250.'', ''Google''),
     (''2a00:1450:'', ''Google (IPv6)''),
     (''1.1.1.1'', ''Cloudflare DNS''),
     (''1.0.0.1'', ''Cloudflare DNS''),
     (''104.16.'', ''Cloudflare''),
     (''104.24.'', ''Cloudflare''),
     (''2606:4700:'', ''Cloudflare (IPv6)''),
     (''17.'', ''Apple''),
     (''2620:149:'', ''Apple (IPv6)''),
     (''20.'', ''Microsoft''),
     (''40.'', ''Microsoft/Azure''),
     (''52.'', ''Microsoft/Azure''),
     (''2a01:111:'', ''Microsoft (IPv6)''),
     (''3.'', ''Amazon AWS''),
     (''54.'', ''Amazon AWS''),
     (''52.'', ''Amazon AWS (shared with MS)''),
     (''140.82.'', ''GitHub''),
     (''104.244.'', ''Twitter/X''),
     (''162.159.'', ''Discord''),
     (''188.114.'', ''Discord/Cloudflare''),
     (''149.154.'', ''Telegram''),
     (''91.108.'', ''Telegram''),
     (''13.107.'', ''Signal/Microsoft''),
     (''23.246.'', ''Netflix''),
     (''45.57.'', ''Netflix''),
     (''35.186.'', ''Spotify/Google''),
     (''104.18.'', ''OpenAI (Cloudflare)'')]"

definition SERVICE_SIGNATURES :: "(string \<times> string) list" where
  "SERVICE_SIGNATURES = dict_display SERVICE_SIGNATURES_entries"

definition ACTIVITY_CATEGORIES :: "(string \<times> string list) list" where
  "ACTIVITY_CATEGORIES = dict_display
    [(''social'', [''meta'', ''facebook'', ''instagram'', ''whatsapp'', ''twitter'', ''tiktok'',
                   ''snapchat'', ''linkedin'']),
     (''communication'', [''whatsapp'', ''telegram'', ''signal'', ''discord'', ''slack'',
                          ''messenger'', ''gmail'', ''outlook'']),
     (''search'', [''google'', ''bing'', ''duckduckgo'']),
     (''development'', [''github'', ''gitlab'', ''bitbucket'', ''stackoverflow'', ''npmjs'',
                        ''pypi'']),
     (''ai'', [''openai'', ''anthropic'', ''claude'', ''chatgpt'', ''perplexity'', ''gemini'',
               ''copilot'']),
     (''media'', [''youtube'', ''netflix'', ''spotify'', ''twitch'', ''plex'', ''soundcloud'']),
     (''cloud'', [''cloudflare'', ''aws'', ''azure'', ''gcp'', ''digitalocean'', ''amazon'']),
     (''apple'', [''apple'', ''icloud'', ''itunes'']),
     (''microsoft'', [''microsoft'', ''office'', ''outlook'', ''teams''])]"

subsection \<open>The classifier\<close>

text \<open>The loop of \<open>identify_service\<close> over the items of a table.\<close>

fun first_signature :: "(string \<times> string) list \<Rightarrow> string \<Rightarrow> string option" where
  "first_signature [] ip_lower = None"
| "first_signature ((signature, service) # rest) ip_lower =
     (if contains signature ip_lower then Some service else first_signature rest ip_lower)"

definition identify_service :: "string \<Rightarrow> string option" where
  "identify_service ip = first_signature SERVICE_SIGNATURES (lower ip)"

text \<open>The two nested loops of \<open>categorize_activity\<close>.\<close>

fun first_keyword :: "string list \<Rightarrow> string \<Rightarrow> bool" where
  "first_keyword [] service_lower = False"
| "first_keyword (keyword # rest) service_lower =
     (if contains keyword service_lower then True else first_keyword rest service_lower)"

fun first_category :: "(string \<times> string list) list \<Rightarrow> string \<Rightarrow> string" where
  "first_category [] service_lower = ''other''"
| "first_category ((category, keywords) # rest) service_lower =
     (if first_keyword keywords service_lower then category
      else first_category rest service_lower)"

definition categorize_activity :: "string \<Rightarrow> string" where
  "categorize_activity service = first_category ACTIVITY_CATEGORIES (lower service)"

subsection \<open>Regular expressions of the line parser\<close>

text \<open>
  A capture line is a Python \<open>str\<close>, a sequence of code points, and the patterns of the
  parser are matched against code points. \<open>ustr\<close> gives the code points of an ASCII
  text, and \<open>ascii\<close> the text of code points below 128.
\<close>

type_synonym ustring = "nat list"

definition ustr :: "string \<Rightarrow> ustring" where
  "ustr s = map of_char s"

definition ascii :: "ustring \<Rightarrow> string" where
  "ascii u = map char_of u"

text \<open>
  The code points that \<open>\s\<close> matches in a \<open>str\<close> pattern, those for which
  \<open>str.isspace\<close> holds.
\<close>

definition whitespace :: "nat list" where
  "whitespace =
     [0x9, 0xA, 0xB, 0xC, 0xD, 0x1C, 0x1D, 0x1E,
      0x1F, 0x20, 0x85, 0xA0, 0x1680, 0x2000, 0x2001, 0x2002,
      0x2003, 0x2004, 0x2005, 0x2006, 0x2007, 0x2008, 0x2009, 0x200A,
      0x2028, 0x2029, 0x202F, 0x205F, 0x3000]"

text \<open>
  The code points that \<open>\d\<close> matches in a \<open>str\<close> pattern are the decimal digits of
  Unicode (category Nd). They come in blocks of ten, for the digits 0 to 9 in order;
  these are the first code points of the blocks of Unicode 14.0, the version of CPython
  3.11. The first block is that of the ASCII digits.
\<close>

definition decimal_blocks :: "nat list" where
  "decimal_blocks =
     [0x30, 0x660, 0x6F0, 0x7C0, 0x966, 0x9E6, 0xA66, 0xAE6,
      0xB66, 0xBE6, 0xC66, 0xCE6, 0xD66, 0xDE6, 0xE50, 0xED0,
      0xF20, 0x1040, 0x1090, 0x17E0, 0x1810, 0x1946, 0x19D0, 0x1A80,
      0x1A90, 0x1B50, 0x1BB0, 0x1C40, 0x1C50, 0xA620, 0xA8D0, 0xA900,
      0xA9D0, 0xA9F0, 0xAA50, 0xABF0, 0xFF10, 0x104A0, 0x10D30, 0x11066,
      0x110F0, 0x11136, 0x111D0, 0x112F0, 0x11450, 0x114D0, 0x11650, 0x116C0,
      0x11730, 0x118E0, 0x11950, 0x11C50, 0x11D50, 0x11DA0, 0x16A60, 0x16AC0,
      0x16B50, 0x1D7CE, 0x1D7D8, 0x1D7E2, 0x1D7EC, 0x1D7F6, 0x1E140, 0x1E2F0,
      0x1E950, 0x1FBF0]"

text \<open>The digit that a code point stands for, if it is a decimal digit.\<close>

definition decimal_value :: "nat \<Rightarrow> nat option" where
  "decimal_value c =
     (case find (\<lambda>b. b \<le> c \<and> c < b + 10) decimal_blocks of
        None \<Rightarrow> None
      | Some b \<Rightarrow> Some (c - b))"

text \<open>
  \<open>re.search\<close> is a backtracking matcher: it tries the start positions from left to right
  and, at one position, the ways of matching in a fixed order of preference (a repetition
  takes as many characters as it can and gives them back one at a time, the alternatives of
  a group are tried in the order written); the first way that matches the whole pattern is
  the result. The three patterns of the script are sequences of the following atoms.
\<close>

datatype cclass = AddrChar | Space | Digit

text \<open>\<open>[a-f0-9:.]\<close>, \<open>\s\<close> and \<open>\d\<close>\<close>

fun in_class :: "cclass \<Rightarrow> nat \<Rightarrow> bool" where
  "in_class AddrChar c = (c \<in> set (ustr ''abcdef0123456789:.''))"
| "in_class Space c = (c \<in> set whitespace)"
| "in_class Digit c = (decimal_value c \<noteq> None)"

datatype atom =
    Lit ustring \<comment> \<open>literal text\<close>
  | Star cclass \<comment> \<open>\<open>c*\<close>\<close>
  | Plus cclass \<comment> \<open>\<open>c+\<close>\<close>
  | Alt "ustring list" \<comment> \<open>\<open>w1|w2|...\<close>\<close>

datatype item =
    Plain atom
  | Group atom \<comment> \<open>a capturing group \<open>(...)\<close>\<close>

fun atom_of :: "item \<Rightarrow> atom" where
  "atom_of (Plain a) = a"
| "atom_of (Group a) = a"

fun captures :: "item \<Rightarrow> bool" where
  "captures (Plain a) = False"
| "captures (Group a) = True"

text \<open>
  The lengths of the prefixes of \<open>s\<close> that an atom can match, in the order in which the
  matcher tries them.
\<close>

fun atom_lens :: "atom \<Rightarrow> ustring \<Rightarrow> nat list" where
  "atom_lens (Lit w) s = (if startswith s w then [length w] else [])"
| "atom_lens (Star c) s = rev [0 ..< Suc (length (takeWhile (in_class c) s))]"
| "atom_lens (Plus c) s = rev [1 ..< Suc (length (takeWhile (in_class c) s))]"
| "atom_lens (Alt ws) s = map length (filter (startswith s) ws)"

text \<open>The first alternative, in order, for which \<open>f\<close> succeeds.\<close>

fun first_some :: "('a \<Rightarrow> 'b option) \<Rightarrow> 'a list \<Rightarrow> 'b option" where
  "first_some f [] = None"
| "first_some f (x # xs) = (case f x of Some y \<Rightarrow> Some y | None \<Rightarrow> first_some f xs)"

text \<open>
  Matching a pattern at the start of \<open>s\<close>: the captured groups of the first way to match,
  in the order of the groups.
\<close>

primrec match_here :: "item list \<Rightarrow> ustring \<Rightarrow> ustring list option" where
  "match_here [] = (\<lambda>s. Some [])"
| "match_here (it # rest) = (\<lambda>s.
     first_some
       (\<lambda>k. case match_here rest (drop k s) of
               None \<Rightarrow> None
             | Some groups \<Rightarrow> Some (if captures it then take k s # groups else groups))
       (atom_lens (atom_of it) s))"

text \<open>\<open>re.search(pattern, line)\<close>: the groups of the leftmost match.\<close>

definition re_search :: "item list \<Rightarrow> ustring \<Rightarrow> ustring list option" where
  "re_search pattern line =
     first_some (\<lambda>i. match_here pattern (drop i line)) [0 ..< Suc (length line)]"

text \<open>What a group of a pattern can hold, whatever the line.\<close>

fun group_ok :: "atom \<Rightarrow> ustring \<Rightarrow> bool" where
  "group_ok (Lit w) g = (g = w)"
| "group_ok (Star c) g = list_all (in_class c) g"
| "group_ok (Plus c) g = (g \<noteq> [] \<and> list_all (in_class c) g)"
| "group_ok (Alt ws) g = (g \<in> set ws)"

text \<open>The arrow of the capture lines, U+2192.\<close>

definition arrow :: ustring where
  "arrow = [0x2192]"

text \<open>\<open>([a-f0-9:.]+)\s*\<rightarrow>\s*([a-f0-9:.]+)\<close>\<close>

definition addr_pattern :: "item list" where
  "addr_pattern =
     [Group (Plus AddrChar), Plain (Star Space), Plain (Lit arrow), Plain (Star Space),
      Group (Plus AddrChar)]"

text \<open>\<open>(TCP|UDP|SSL|TLS|HTTP|QUIC)\s+(\d+)\<close>\<close>

definition proto_pattern :: "item list" where
  "proto_pattern =
     [Group (Alt (map ustr [''TCP'', ''UDP'', ''SSL'', ''TLS'', ''HTTP'', ''QUIC''])),
      Plain (Plus Space), Group (Plus Digit)]"

text \<open>\<open>\<rightarrow>\s*(\d+)\<close>\<close>

definition port_pattern :: "item list" where
  "port_pattern = [Plain (Lit arrow), Plain (Star Space), Group (Plus Digit)]"

subsection \<open>Exceptions\<close>

text \<open>
  An exception is a value; its text is what \<open>str(e)\<close> gives. A computation that may
  raise returns \<open>Inl\<close> of the exception or \<open>Inr\<close> of its result.
\<close>

datatype error = ValueError string | OSError string

fun message :: "error \<Rightarrow> string" where
  "message (ValueError m) = m"
| "message (OSError m) = m"

text \<open>
  \<open>sys.get_int_max_str_digits()\<close>: the longest digit string that \<open>int\<close> converts, 4300
  unless the interpreter is configured otherwise (CPython 3.11 and later).
\<close>

definition int_max_str_digits :: nat where
  "int_max_str_digits = 4300"

text \<open>
  \<open>int(s)\<close>: a string of one or more decimal digits, of any script, gives the number it
  denotes, unless it has more digits than the limit, leading zeros included; then \<open>int\<close>
  raises \<open>ValueError\<close>. Every other string raises \<open>ValueError\<close> in the model (Python
  accepts a few more, such as a sign or spaces around the digits; the parser only passes
  matches of \<open>\d+\<close>).
\<close>

definition digit_val :: "nat \<Rightarrow> nat" where
  "digit_val c = (case decimal_value c of None \<Rightarrow> 0 | Some d \<Rightarrow> d)"

definition py_int :: "ustring \<Rightarrow> error + nat" where
  "py_int s =
     (if s = [] \<or> \<not> list_all (in_class Digit) s then
        Inl (ValueError ''invalid literal for int() with base 10'')
      else if int_max_str_digits < length s then
        Inl (ValueError (''Exceeds the limit ('' @ str_nat int_max_str_digits @
               '' digits) for integer string conversion: value has '' @
               str_nat (length s) @
               '' digits; use sys.set_int_max_str_digits() to increase the limit''))
      else Inr (foldl (\<lambda>n c. 10 * n + digit_val c) 0 s))"

subsection \<open>The capture loop\<close>

text \<open>
  A packet is the dictionary that the loop of \<open>capture_traffic\<close> appends (the key
  \<open>"size"\<close> is the field \<open>size_pkt\<close>). Its size and port are the \<open>int\<close> of a
  \<open>\d+\<close> match, so they are never negative; its addresses and its protocol are matches
  of ASCII patterns.
\<close>

record packet =
  src_ip :: string
  dst_ip :: string
  dst_port :: nat
  protocol :: string
  size_pkt :: nat

text \<open>\<open>int(port_match.group(1)) if port_match else 0\<close>\<close>

definition extract_port :: "ustring \<Rightarrow> error + nat" where
  "extract_port line =
     (case re_search port_pattern line of
        Some [port] \<Rightarrow> py_int port
      | _ \<Rightarrow> Inr 0)"

text \<open>
  The body of the loop for one line: it raises, or appends nothing (\<open>None\<close>), or appends a
  packet.
\<close>

definition parse_line :: "ustring \<Rightarrow> error + packet option" where
  "parse_line line =
     (case re_search addr_pattern line of
        Some [src, dst] \<Rightarrow>
          (case re_search proto_pattern line of
             Some [proto, sz] \<Rightarrow>
               (case py_int sz of
                  Inl e \<Rightarrow> Inl e
                | Inr n \<Rightarrow>
                    (case extract_port line of
                       Inl e \<Rightarrow> Inl e
                     | Inr port \<Rightarrow>
                         Inr (Some \<lparr>src_ip = ascii src, dst_ip = ascii dst, dst_port = port,
                                    protocol = ascii proto, size_pkt = n\<rparr>)))
           | _ \<Rightarrow> Inr None)
      | _ \<Rightarrow> Inr None)"

text \<open>
  The loop over the lines read before the deadline: the packets appended, and the
  exception that ended the loop, if one did.
\<close>

fun parse_lines :: "ustring list \<Rightarrow> packet list \<Rightarrow> packet list \<times> error option" where
  "parse_lines [] pkts = (pkts, None)"
| "parse_lines (line # rest) pkts =
     (case parse_line line of
        Inl e \<Rightarrow> (pkts, Some e)
      | Inr None \<Rightarrow> parse_lines rest pkts
      | Inr (Some pkt) \<Rightarrow> parse_lines rest (pkts @ [pkt]))"

text \<open>
  One run of \<open>tshark\<close> as \<open>capture_traffic\<close> sees it: either \<open>Popen\<close> raises (the
  program is missing, or may not be run), or the program starts and the loop reads lines
  until the deadline or the end of the output, where reading may raise as well.
\<close>

datatype capture_run =
    StartFailed error
  | Stream "ustring list" "error option"

text \<open>\<open>print(f"Error capturing traffic: {e}", file=sys.stderr)\<close>\<close>

definition report :: "error \<Rightarrow> string" where
  "report e = ''Error capturing traffic: '' @ message e"

text \<open>
  \<open>capture_traffic\<close>: the packets it returns and the lines it prints on the standard
  error. The \<open>except\<close> clause catches every exception raised in the \<open>try\<close> block, and
  the packets appended so far are returned.
\<close>

fun capture_traffic :: "capture_run \<Rightarrow> packet list \<times> string list" where
  "capture_traffic (StartFailed e) = ([], [report e])"
| "capture_traffic (Stream lines read_error) =
     (case parse_lines lines [] of
        (pkts, Some e) \<Rightarrow> (pkts, [report e])
      | (pkts, None) \<Rightarrow>
          (pkts, case read_error of None \<Rightarrow> [] | Some e \<Rightarrow> [report e]))"

text \<open>
  A line whose size has 4301 digits, one more than \<open>int\<close> converts, and a line whose size
  has two.
\<close>

definition long_size_line :: ustring where
  "long_size_line =
     ustr ''10.66.66.2 '' @ arrow @ ustr '' fe80::1 TCP '' @ replicate 4301 (of_char CHR ''1'')"

definition short_size_line :: ustring where
  "short_size_line = ustr ''10.66.66.2 '' @ arrow @ ustr '' fe80::1 TCP 60''"

text \<open>A line with a protocol that the parser does not know.\<close>

definition unknown_protocol_line :: ustring where
  "unknown_protocol_line = ustr ''10.66.66.2 '' @ arrow @ ustr '' fe80::1 ICMP 60''"

subsection \<open>Floating point\<close>

text \<open>
  A Python \<open>float\<close> is an IEEE 754 double; it is modelled by the rational number it
  denotes. The only floats of the script are \<open>bytes_count / total_bytes\<close>, at most 1, and
  its product with 100. Division of two \<open>int\<close>s and multiplication of two floats give
  the double nearest to the exact result, a tie going to the even significand.
\<close>

text \<open>\<open>n.bit_length()\<close>\<close>

fun bit_length :: "nat \<Rightarrow> nat" where
  "bit_length n = (if n = 0 then 0 else Suc (bit_length (n div 2)))"

declare bit_length.simps [simp del]

text \<open>The power \<open>2\<^sup>e\<close> for an integer \<open>e\<close>.\<close>

definition pow2 :: "int \<Rightarrow> rat" where
  "pow2 e = (if 0 \<le> e then 2 ^ nat e else 1 / 2 ^ nat (- e))"

text \<open>For \<open>x > 0\<close>, the integer \<open>k\<close> with \<open>2\<^sup>k \<le> x < 2\<^sup>k\<^sup>+\<^sup>1\<close>.\<close>

definition ilog2 :: "rat \<Rightarrow> int" where
  "ilog2 x =
     (if 1 \<le> x then int (bit_length (nat \<lfloor>x\<rfloor>)) - 1
      else - int (bit_length (nat \<lceil>1 / x\<rceil> - 1)))"

text \<open>Rounding to the nearest integer, a tie to the even one.\<close>

definition round_half_even :: "rat \<Rightarrow> int" where
  "round_half_even x =
     (let f = \<lfloor>x\<rfloor>; d = x - of_int f
      in if d < 1 / 2 then f else if 1 / 2 < d then f + 1 else if even f then f else f + 1)"

text \<open>
  The double nearest to \<open>x\<close>, for \<open>0 \<le> x < 2\<^sup>1\<^sup>0\<^sup>2\<^sup>4\<close>: a significand of 53 bits, the
  exponent of a subnormal number fixed at \<open>-1074\<close>.
\<close>

definition to_double :: "rat \<Rightarrow> rat" where
  "to_double x =
     (if x = 0 then 0
      else let e = max (ilog2 x - 52) (- 1074)
           in of_int (round_half_even (x / pow2 e)) * pow2 e)"

text \<open>\<open>a / b\<close> on two \<open>int\<close>s, \<open>b\<close> not zero, and \<open>x * y\<close> on two floats.\<close>

definition py_truediv :: "nat \<Rightarrow> nat \<Rightarrow> rat" where
  "py_truediv a b = to_double (of_nat a / of_nat b)"

definition py_fmul :: "rat \<Rightarrow> rat \<Rightarrow> rat" where
  "py_fmul x y = to_double (x * y)"

text \<open>The format \<open>{x:.0f}\<close> of a float \<open>x \<ge> 0\<close>.\<close>

definition fmt_0f :: "rat \<Rightarrow> string" where
  "fmt_0f x = str_nat (nat (round_half_even x))"

subsection \<open>The aggregator\<close>

text \<open>
  The value of an \<open>ip_stats\<close> entry: the keys \<open>"packets"\<close>, \<open>"bytes"\<close> and \<open>"ports"\<close>.
\<close>

record dest_stats =
  n_packets :: nat
  n_bytes :: nat
  port_set :: "nat set"

definition outbound :: "string \<Rightarrow> bool" where
  "outbound src = (startswith src ''fd42:42:42:'' \<or> startswith src ''10.66.66.'')"

text \<open>The body of the loop over the packets.\<close>

definition count_packet :: "(string \<times> dest_stats) list \<Rightarrow> packet \<Rightarrow> (string \<times> dest_stats) list"
  where
  "count_packet ip_stats pkt =
     (if outbound (src_ip pkt) then
        dd_update (dst_ip pkt) \<lparr>n_packets = 0, n_bytes = 0, port_set = {}\<rparr>
          (\<lambda>st. st\<lparr>n_packets := n_packets st + 1,
                   n_bytes := n_bytes st + size_pkt pkt,
                   port_set := insert (dst_port pkt) (port_set st)\<rparr>)
          ip_stats
      else ip_stats)"

definition aggregate :: "packet list \<Rightarrow> (string \<times> dest_stats) list" where
  "aggregate packets = foldl count_packet [] packets"

text \<open>
  \<open>ip_stats[dst]\<close> read without storing: the entry of \<open>dst\<close>, or what the factory gives.
\<close>

definition stats_of :: "(string \<times> dest_stats) list \<Rightarrow> string \<Rightarrow> dest_stats" where
  "stats_of ip_stats dst =
     (case map_of ip_stats dst of
        None \<Rightarrow> \<lparr>n_packets = 0, n_bytes = 0, port_set = {}\<rparr>
      | Some st \<Rightarrow> st)"

text \<open>The outbound packets of a batch that go to \<open>dst\<close>.\<close>

definition sent_to :: "string \<Rightarrow> packet list \<Rightarrow> packet list" where
  "sent_to dst pkts = filter (\<lambda>p. outbound (src_ip p) \<and> dst_ip p = dst) pkts"

subsection \<open>The summary builder\<close>

record connection =
  ip :: string
  service :: string
  category :: string
  packets :: nat
  bytes :: nat
  ports :: "nat list"

record traffic_summary =
  generated_at :: string
  total_packets :: nat
  total_bytes :: nat
  unique_destinations :: nat
  connections :: "connection list"
  activity_summary :: string

text \<open>
  \<open>sorted(xs, key=key, reverse=True)\<close>: a stable sort in descending order, elements of
  equal key staying in their order.
\<close>

definition sorted_desc :: "('a \<Rightarrow> nat) \<Rightarrow> 'a list \<Rightarrow> 'a list" where
  "sorted_desc key xs = rev (sort_key key (rev xs))"

text \<open>The body of the loop that identifies the services.\<close>

definition make_connection :: "string \<times> dest_stats \<Rightarrow> connection" where
  "make_connection entry =
     (let service = (case identify_service (fst entry) of
                       None \<Rightarrow> ''Unknown''
                     | Some s \<Rightarrow> if s = [] then ''Unknown'' else s)
      in \<lparr>ip = fst entry, service = service, category = categorize_activity service,
          packets = n_packets (snd entry), bytes = n_bytes (snd entry),
          ports = sorted_list_of_set (port_set (snd entry))\<rparr>)"

definition all_connections :: "(string \<times> dest_stats) list \<Rightarrow> connection list" where
  "all_connections ip_stats = map make_connection (sorted_desc (\<lambda>e. n_bytes (snd e)) ip_stats)"

definition category_bytes :: "connection list \<Rightarrow> (string \<times> nat) list" where
  "category_bytes conns =
     foldl (\<lambda>d conn. dd_update (category conn) 0 (\<lambda>b. b + bytes conn) d) [] conns"

text \<open>The percentage of a category, and the loop that collects the parts of the text.\<close>

definition percent :: "nat \<Rightarrow> nat \<Rightarrow> rat" where
  "percent bytes_count tot = py_fmul (py_truediv bytes_count tot) 100"

fun activity_parts :: "nat \<Rightarrow> (string \<times> nat) list \<Rightarrow> string list" where
  "activity_parts tot [] = []"
| "activity_parts tot ((cat, bytes_count) # rest) =
     (if 0 < bytes_count \<and> 0 < tot then
        (if 1 < percent bytes_count tot
         then (cat @ '': '' @ fmt_0f (percent bytes_count tot) @ ''%'') #
              activity_parts tot rest
         else activity_parts tot rest)
      else activity_parts tot rest)"

text \<open>\<open>sep.join(parts)\<close>\<close>

fun join :: "string \<Rightarrow> string list \<Rightarrow> string" where
  "join sep [] = []"
| "join sep [x] = x"
| "join sep (x # y # rest) = x @ sep @ join sep (y # rest)"

text \<open>The text of the activity summary, from all the connections.\<close>

definition activity_text :: "connection list \<Rightarrow> string" where
  "activity_text conns =
     (let parts = activity_parts (sum_list (map bytes conns))
                    (sorted_desc snd (category_bytes conns))
      in if parts = [] then ''Minimal activity'' else join '' | '' parts)"

text \<open>\<open>summarize_traffic\<close>; \<open>now\<close> is the text of \<open>datetime.now().isoformat()\<close>.\<close>

definition summarize_traffic :: "string \<Rightarrow> packet list \<Rightarrow> traffic_summary" where
  "summarize_traffic now pkts =
     (if pkts = [] then
        \<lparr>generated_at = now, total_packets = 0, total_bytes = 0, unique_destinations = 0,
         connections = [], activity_summary = ''No traffic captured''\<rparr>
      else
        let ip_stats = aggregate pkts;
            conns = all_connections ip_stats
        in \<lparr>generated_at = now, total_packets = length pkts,
            total_bytes = sum_list (map bytes conns),
            unique_destinations = length ip_stats,
            connections = take 20 conns,
            activity_summary = activity_text conns\<rparr>)"

text \<open>The bytes of the connections of one category.\<close>

definition category_sum :: "string \<Rightarrow> connection list \<Rightarrow> nat" where
  "category_sum cat conns = sum_list (map bytes (filter (\<lambda>c. category c = cat) conns))"

text \<open>
  A batch with twenty-one destinations: twenty unknown ones with two bytes each, and one of
  Google with one byte.
\<close>

definition twenty_one_destinations :: "packet list" where
  "twenty_one_destinations =
     map (\<lambda>n. \<lparr>src_ip = ''10.66.66.2'', dst_ip = ''8.8.8.'' @ str_nat n, dst_port = 443,
                protocol = ''TCP'', size_pkt = 2\<rparr>) [1 ..< 21] @
     [\<lparr>src_ip = ''10.66.66.2'', dst_ip = ''142.250.0.1'', dst_port = 443,
       protocol = ''TCP'', size_pkt = 1\<rparr>]"


subsection \<open>The entry point\<close>

text \<open>
  What \<open>main\<close> meets outside the program: whether the log directory can be made, the run
  of the capture program, the clock, and whether the output file can be written. Neither
  the \<open>mkdir\<close> nor the write is inside a \<open>try\<close>; the result of \<open>main\<close> is the exception
  that ends it, or the summary it has written.
\<close>

record world =
  mkdir_error :: "error option"
  run :: capture_run
  clock :: string
  write_error :: "error option"

definition main :: "world \<Rightarrow> error + traffic_summary" where
  "main w =
     (case mkdir_error w of
        Some e \<Rightarrow> Inl e
      | None \<Rightarrow>
          let pkts = fst (capture_traffic (run w));
              summary = summarize_traffic (clock w) pkts
          in (case write_error w of Some e \<Rightarrow> Inl e | None \<Rightarrow> Inr summary))"

section \<open>Properties\<close>

subsection \<open>Strings and dictionaries\<close>

lemma startswith_iff: "startswith s p \<longleftrightarrow> (\<exists>b. s = p @ b)"
  by (induction s p rule: startswith.induct) auto

text \<open>\<open>contains\<close> is the substring test.\<close>

lemma contains_iff: "contains p s \<longleftrightarrow> (\<exists>a b. s = a @ p @ b)"
proof (induction s)
  case Nil
  then show ?case by auto
next
  case (Cons c cs)
  show ?case
  proof
    assume "contains p (c # cs)"
    then consider "startswith (c # cs) p" | "contains p cs" by auto
    then show "\<exists>a b. c # cs = a @ p @ b"
    proof cases
      case 1
      then obtain b where "c # cs = p @ b" by (auto simp: startswith_iff)
      then have "c # cs = [] @ p @ b" by simp
      then show ?thesis by blast
    next
      case 2
      then obtain a b where "cs = a @ p @ b" using Cons.IH by blast
      then have "c # cs = (c # a) @ p @ b" by simp
      then show ?thesis by blast
    qed
  next
    assume "\<exists>a b. c # cs = a @ p @ b"
    then obtain a b where ab: "c # cs = a @ p @ b" by blast
    show "contains p (c # cs)"
    proof (cases a)
      case Nil
      with ab have "startswith (c # cs) p" by (auto simp: startswith_iff)
      then show ?thesis by simp
    next
      case (Cons a0 a')
      with ab have "cs = a' @ p @ b" by simp
      then have "contains p cs" using Cons.IH by blast
      then show ?thesis by simp
    qed
  qed
qed

lemma keys_dd_update:
  "map fst (dd_update k dflt f d) = (if k \<in> fst ` set d then map fst d else map fst d @ [k])"
  by (induction d) force+

lemma map_of_dict_set: "map_of (dict_set d (k, v)) = (map_of d)(k \<mapsto> v)"
  unfolding dict_set_def by (induction d) (auto simp: fun_eq_iff)

lemma find_append:
  "find P (xs @ ys) = (case find P xs of None \<Rightarrow> find P ys | Some x \<Rightarrow> Some x)"
  by (induction xs) auto

lemma find_skip_dup: "k \<in> set xs \<Longrightarrow> find P (xs @ k # ys) = find P (xs @ ys)"
proof (cases "find P xs")
  case None
  assume "k \<in> set xs"
  with None have "\<not> P k" by (auto simp: find_None_iff)
  with None show ?thesis by (simp add: find_append)
next
  case (Some x)
  then show ?thesis by (simp add: find_append)
qed

lemma find_Some_holds: "find P xs = Some x \<Longrightarrow> P x"
  by (induction xs) (auto split: if_splits)

text \<open>
  A display keeps every key at the place of its first entry and gives it the value of its
  last entry.
\<close>

lemma find_keys_foldl:
  "find P (map fst (foldl dict_set d es)) = find P (map fst d @ map fst es)"
proof (induction es arbitrary: d)
  case Nil
  then show ?case by simp
next
  case (Cons e es)
  have "find P (map fst (dict_set d e) @ map fst es) = find P (map fst d @ fst e # map fst es)"
    by (simp add: dict_set_def keys_dd_update find_skip_dup)
  then show ?case using Cons.IH [of "dict_set d e"] by simp
qed

lemma map_of_foldl: "map_of (foldl dict_set d es) = map_of (rev es @ d)"
proof (induction es arbitrary: d)
  case Nil
  then show ?case by simp
next
  case (Cons e es)
  obtain k v where e: "e = (k, v)" by (cases e)
  show ?case using Cons.IH [of "dict_set d e"]
    by (simp add: e map_of_dict_set map_add_def fun_eq_iff split: option.splits)
qed

subsection \<open>The classifier\<close>

lemma first_signature_find:
  "first_signature d s =
     (case find (\<lambda>k. contains k s) (map fst d) of None \<Rightarrow> None | Some k \<Rightarrow> map_of d k)"
  by (induction d s rule: first_signature.induct)
    (auto split: option.splits dest: find_Some_holds)

lemma first_signature_display:
  "first_signature (dict_display es) s =
     (case find (\<lambda>k. contains k s) (map fst es) of
        None \<Rightarrow> None
      | Some k \<Rightarrow> map_of (rev es) k)"
  by (simp add: first_signature_find dict_display_def find_keys_foldl map_of_foldl
      cong: option.case_cong)

text \<open>
  Claim C1, as the spec states it: the scan returns the service name of the first declared
  entry whose pattern occurs in the address, so that of two entries with the pattern
  \<open>52.\<close> the earlier one, \<open>Microsoft/Azure\<close>, wins. The table is a dictionary display,
  and the address \<open>52.0.0.0\<close> shows the difference: the first declared entry that matches
  it names \<open>Microsoft/Azure\<close>, and \<open>identify_service\<close> answers with the name of the later
  entry.
\<close>

theorem identify_service_duplicate_counterexample:
  "first_signature SERVICE_SIGNATURES_entries (lower ''52.0.0.0'') = Some ''Microsoft/Azure'' \<and>
   identify_service ''52.0.0.0'' = Some ''Amazon AWS (shared with MS)''"
  by code_simp

text \<open>
  Claim C1, amended: for every address, \<open>identify_service\<close> finds the first declared
  pattern that is a substring of the lowercased address and returns the service name of
  the last declared entry that carries this pattern. For the pattern \<open>52.\<close> this is
  \<open>Amazon AWS (shared with MS)\<close>; the earlier entry for \<open>52.\<close>, \<open>Microsoft/Azure\<close>, is
  the one that is never returned.
\<close>

theorem identify_service_first_pattern_last_name:
  "identify_service addr =
     (case find (\<lambda>sig. contains sig (lower addr)) (map fst SERVICE_SIGNATURES_entries) of
        None \<Rightarrow> None
      | Some sig \<Rightarrow> map_of (rev SERVICE_SIGNATURES_entries) sig) \<and>
   map_of (rev SERVICE_SIGNATURES_entries) ''52.'' = Some ''Amazon AWS (shared with MS)'' \<and>
   (''52.'', ''Microsoft/Azure'') \<notin> set SERVICE_SIGNATURES"
proof -
  have "map_of (rev SERVICE_SIGNATURES_entries) ''52.'' = Some ''Amazon AWS (shared with MS)''"
    by code_simp
  moreover have "(''52.'', ''Microsoft/Azure'') \<notin> set SERVICE_SIGNATURES"
    by code_simp
  ultimately show ?thesis
    by (simp add: identify_service_def SERVICE_SIGNATURES_def first_signature_display)
qed

subsection \<open>The line parser\<close>

text \<open>The groups of a match hold what their atoms allow.\<close>

lemma first_some_SomeD: "first_some f xs = Some y \<Longrightarrow> \<exists>x \<in> set xs. f x = Some y"
  by (induction xs) (auto split: option.splits)

lemma first_some_map: "first_some f (map g xs) = first_some (\<lambda>x. f (g x)) xs"
  by (induction xs) (auto split: option.splits)

lemma take_takeWhile_all:
  "k \<le> length (takeWhile P s) \<Longrightarrow> list_all P (take k s)"
proof -
  assume k: "k \<le> length (takeWhile P s)"
  have "take k s = take k (takeWhile P s @ dropWhile P s)" by simp
  also have "\<dots> = take k (takeWhile P s)" using k by (simp only: take_append) simp
  finally have "set (take k s) \<subseteq> set (takeWhile P s)" by (simp add: set_take_subset)
  then show ?thesis by (auto simp: list_all_iff dest: set_takeWhileD)
qed

lemma startswith_take: "startswith s w \<Longrightarrow> take (length w) s = w"
  by (auto simp: startswith_iff)

lemma atom_lens_ok: "k \<in> set (atom_lens a s) \<Longrightarrow> group_ok a (take k s)"
proof (cases a)
  case (Lit w)
  assume "k \<in> set (atom_lens a s)"
  with Lit show ?thesis by (auto simp: startswith_take split: if_splits)
next
  case (Star c)
  assume "k \<in> set (atom_lens a s)"
  with Star show ?thesis by (auto simp: take_takeWhile_all)
next
  case (Plus c)
  assume "k \<in> set (atom_lens a s)"
  with Plus have k: "1 \<le> k" "k \<le> length (takeWhile (in_class c) s)" by auto
  then have "s \<noteq> []" by auto
  with k Plus show ?thesis by (auto simp: take_takeWhile_all)
next
  case (Alt ws)
  assume "k \<in> set (atom_lens a s)"
  with Alt show ?thesis by (auto simp: startswith_take)
qed

lemma match_here_groups:
  "match_here items s = Some gs \<Longrightarrow>
     list_all2 group_ok (map atom_of (filter captures items)) gs"
proof (induction items arbitrary: s gs)
  case Nil
  then show ?case by simp
next
  case (Cons it rest)
  from Cons.prems obtain k where k: "k \<in> set (atom_lens (atom_of it) s)"
    and m: "(case match_here rest (drop k s) of
               None \<Rightarrow> None
             | Some groups \<Rightarrow> Some (if captures it then take k s # groups else groups)) = Some gs"
    by (auto dest!: first_some_SomeD)
  from m obtain groups where g: "match_here rest (drop k s) = Some groups"
    and gs: "gs = (if captures it then take k s # groups else groups)"
    by (auto split: option.splits)
  from Cons.IH [OF g] k gs show ?case by (auto simp: atom_lens_ok)
qed

lemma re_search_groups:
  "re_search pattern line = Some gs \<Longrightarrow>
     list_all2 group_ok (map atom_of (filter captures pattern)) gs"
  unfolding re_search_def by (auto dest!: first_some_SomeD match_here_groups)

lemma addr_groups:
  "re_search addr_pattern line = Some gs \<Longrightarrow>
     \<exists>src dst. gs = [src, dst] \<and> list_all (in_class AddrChar) src \<and>
       list_all (in_class AddrChar) dst"
  by (drule re_search_groups) (auto simp: addr_pattern_def list_all2_Cons1)

lemma proto_groups:
  "re_search proto_pattern line = Some gs \<Longrightarrow>
     \<exists>proto sz. gs = [proto, sz] \<and>
       proto \<in> set (map ustr [''TCP'', ''UDP'', ''SSL'', ''TLS'', ''HTTP'', ''QUIC'']) \<and>
       sz \<noteq> [] \<and> list_all (in_class Digit) sz"
  by (drule re_search_groups) (auto simp: proto_pattern_def list_all2_Cons1)

lemma port_groups:
  "re_search port_pattern line = Some gs \<Longrightarrow>
     \<exists>port. gs = [port] \<and> port \<noteq> [] \<and> list_all (in_class Digit) port"
  by (drule re_search_groups) (auto simp: port_pattern_def list_all2_Cons1)

text \<open>The groups of the addresses and of the protocol are ASCII text.\<close>

lemma ustr_ascii_ustr: "ustr (ascii (ustr w)) = ustr w"
  by (simp add: ustr_def ascii_def comp_def)

lemma ustr_ascii_addr: "list_all (in_class AddrChar) g \<Longrightarrow> ustr (ascii g) = g"
proof (induction g)
  case Nil
  then show ?case by (simp add: ustr_def ascii_def)
next
  case (Cons c g)
  then have "c \<in> set (ustr ''abcdef0123456789:.'')" by simp
  then have "c mod 256 = c" by (auto simp: ustr_def)
  with Cons show ?case by (simp add: ustr_def ascii_def)
qed

lemma ustr_ascii_proto:
  "proto \<in> set (map ustr [''TCP'', ''UDP'', ''SSL'', ''TLS'', ''HTTP'', ''QUIC'']) \<Longrightarrow>
     ustr (ascii proto) = proto"
  by (auto simp: ustr_ascii_ustr)

text \<open>\<open>int\<close> converts a match of \<open>\d+\<close> unless it is too long.\<close>

lemma py_int_digits:
  "s \<noteq> [] \<Longrightarrow> list_all (in_class Digit) s \<Longrightarrow> length s \<le> int_max_str_digits \<Longrightarrow>
     \<exists>n. py_int s = Inr n"
  by (simp add: py_int_def)

lemma py_int_raises:
  "s \<noteq> [] \<Longrightarrow> list_all (in_class Digit) s \<Longrightarrow> py_int s = Inl e \<Longrightarrow>
     int_max_str_digits < length s"
  by (simp add: py_int_def split: if_splits)

lemma extract_port_ok:
  assumes "\<forall>port. re_search port_pattern line = Some [port] \<longrightarrow> length port \<le> int_max_str_digits"
  shows "\<exists>port. extract_port line = Inr port"
proof (cases "re_search port_pattern line")
  case None
  then show ?thesis by (simp add: extract_port_def)
next
  case (Some gs)
  then obtain port where p: "gs = [port]" "port \<noteq> []" "list_all (in_class Digit) port"
    using port_groups by blast
  with Some assms have "length port \<le> int_max_str_digits" by simp
  with p Some show ?thesis using py_int_digits [of port] by (auto simp: extract_port_def)
qed

lemma extract_port_raises:
  assumes "extract_port line = Inl e"
  shows "\<exists>port. re_search port_pattern line = Some [port] \<and> int_max_str_digits < length port"
proof (cases "re_search port_pattern line")
  case None
  with assms show ?thesis by (simp add: extract_port_def)
next
  case (Some gs)
  then obtain port where p: "gs = [port]" "port \<noteq> []" "list_all (in_class Digit) port"
    using port_groups by blast
  with Some assms have "py_int port = Inl e" by (simp add: extract_port_def)
  with p have "int_max_str_digits < length port" using py_int_raises by blast
  with Some p show ?thesis by simp
qed

lemma parse_lines_append:
  "parse_lines (xs @ ys) pkts =
     (case parse_lines xs pkts of (ps, Some e) \<Rightarrow> (ps, Some e) | (ps, None) \<Rightarrow> parse_lines ys ps)"
  by (induction xs arbitrary: pkts) (auto split: sum.splits option.splits)

lemma parse_lines_skip:
  "parse_line line = Inr None \<Longrightarrow>
     parse_lines (before @ line # after) pkts = parse_lines (before @ after) pkts"
  by (simp add: parse_lines_append split: prod.splits option.splits)

lemma parse_line_rejects:
  assumes "re_search addr_pattern line = None \<or> re_search proto_pattern line = None"
  shows "parse_line line = Inr None"
proof (cases "re_search addr_pattern line")
  case None
  then show ?thesis by (simp add: parse_line_def)
next
  case (Some gs)
  with assms have "re_search proto_pattern line = None" by simp
  moreover obtain s d where "gs = [s, d]" using Some addr_groups by blast
  ultimately show ?thesis using Some by (simp add: parse_line_def)
qed

lemma parse_line_raises:
  assumes "parse_line line = Inl e"
  shows "\<exists>src dst proto sz.
           re_search addr_pattern line = Some [src, dst] \<and>
           re_search proto_pattern line = Some [proto, sz] \<and>
           (int_max_str_digits < length sz \<or>
            (\<exists>port. re_search port_pattern line = Some [port] \<and>
               int_max_str_digits < length port))"
proof (cases "re_search addr_pattern line")
  case None
  with assms show ?thesis by (simp add: parse_line_def)
next
  case a: (Some gs)
  then obtain src dst where gs: "gs = [src, dst]" using addr_groups by blast
  show ?thesis
  proof (cases "re_search proto_pattern line")
    case None
    with a gs assms show ?thesis by (simp add: parse_line_def)
  next
    case (Some hs)
    then obtain proto sz where hs: "hs = [proto, sz]" "sz \<noteq> []" "list_all (in_class Digit) sz"
      using proto_groups by blast
    show ?thesis
    proof (cases "py_int sz")
      case (Inl e')
      with hs have "int_max_str_digits < length sz" using py_int_raises by blast
      with a gs Some hs show ?thesis by simp
    next
      case (Inr n)
      with a gs Some hs assms have "extract_port line = Inl e"
        by (simp add: parse_line_def split: sum.splits)
      then show ?thesis using extract_port_raises a gs Some hs by blast
    qed
  qed
qed

text \<open>
  Claim C5, amended: for every line in which both searches match and whose size, and port
  when the search for the port matches, have no more digits than \<open>int\<close> converts (4300),
  the packet appended has the source, the destination and the protocol of the captured
  groups and the number that the size group denotes; for every line in which the address
  pair or the protocol with its size is missing, nothing is appended, so the line can be
  left out of the capture, and nothing is raised; and the body of the loop raises for no
  other line than one with a longer size or port.
\<close>

theorem parse_line_fields_and_rejection:
  "(re_search addr_pattern line = Some [src, dst] \<and>
    re_search proto_pattern line = Some [proto, sz] \<and>
    length sz \<le> int_max_str_digits \<and>
    (\<forall>port. re_search port_pattern line = Some [port] \<longrightarrow>
       length port \<le> int_max_str_digits) \<longrightarrow>
      (\<exists>n port. py_int sz = Inr n \<and>
         ustr (ascii src) = src \<and> ustr (ascii dst) = dst \<and> ustr (ascii proto) = proto \<and>
         parse_line line =
           Inr (Some \<lparr>src_ip = ascii src, dst_ip = ascii dst, dst_port = port,
                       protocol = ascii proto, size_pkt = n\<rparr>))) \<and>
   (re_search addr_pattern line = None \<or> re_search proto_pattern line = None \<longrightarrow>
      parse_line line = Inr None \<and>
      parse_lines (before @ line # after) pkts = parse_lines (before @ after) pkts) \<and>
   (parse_line line = Inl e \<longrightarrow>
      (\<exists>src dst proto sz.
         re_search addr_pattern line = Some [src, dst] \<and>
         re_search proto_pattern line = Some [proto, sz] \<and>
         (int_max_str_digits < length sz \<or>
          (\<exists>port. re_search port_pattern line = Some [port] \<and>
             int_max_str_digits < length port))))"
proof (intro conjI impI)
  assume m: "re_search addr_pattern line = Some [src, dst] \<and>
    re_search proto_pattern line = Some [proto, sz] \<and>
    length sz \<le> int_max_str_digits \<and>
    (\<forall>port. re_search port_pattern line = Some [port] \<longrightarrow>
       length port \<le> int_max_str_digits)"
  from m have a: "list_all (in_class AddrChar) src" "list_all (in_class AddrChar) dst"
    using addr_groups [of line "[src, dst]"] by auto
  from m have p: "proto \<in> set (map ustr [''TCP'', ''UDP'', ''SSL'', ''TLS'', ''HTTP'', ''QUIC''])"
    "sz \<noteq> []" "list_all (in_class Digit) sz"
    using proto_groups [of line "[proto, sz]"] by auto
  from p m obtain n where n: "py_int sz = Inr n" using py_int_digits [of sz] by auto
  from m obtain port where "extract_port line = Inr port" using extract_port_ok by blast
  with m n a p show "\<exists>n port. py_int sz = Inr n \<and>
         ustr (ascii src) = src \<and> ustr (ascii dst) = dst \<and> ustr (ascii proto) = proto \<and>
         parse_line line =
           Inr (Some \<lparr>src_ip = ascii src, dst_ip = ascii dst, dst_port = port,
                       protocol = ascii proto, size_pkt = n\<rparr>)"
    by (simp add: parse_line_def ustr_ascii_addr ustr_ascii_proto)
next
  assume r: "re_search addr_pattern line = None \<or> re_search proto_pattern line = None"
  then show rej: "parse_line line = Inr None" by (rule parse_line_rejects)
  assume "re_search addr_pattern line = None \<or> re_search proto_pattern line = None"
  show "parse_lines (before @ line # after) pkts = parse_lines (before @ after) pkts"
    using rej by (rule parse_lines_skip)
next
  assume "parse_line line = Inl e"
  then show "\<exists>src dst proto sz.
         re_search addr_pattern line = Some [src, dst] \<and>
         re_search proto_pattern line = Some [proto, sz] \<and>
         (int_max_str_digits < length sz \<or>
          (\<exists>port. re_search port_pattern line = Some [port] \<and>
             int_max_str_digits < length port))"
    by (rule parse_line_raises)
qed

text \<open>Evaluating a search on a given line.\<close>

lemmas search_eval =
  re_search_def addr_pattern_def proto_pattern_def port_pattern_def arrow_def ustr_def
  decimal_value_def decimal_blocks_def whitespace_def

lemmas parse_eval =
  parse_line_def extract_port_def py_int_def digit_val_def int_max_str_digits_def ascii_def
  char_of_eq_iff search_eval

lemma re_search_hit: "match_here pat s = Some g \<Longrightarrow> re_search pat s = Some g"
  by (simp add: re_search_def upt_conv_Cons del: upt_Suc)

lemma re_search_skip:
  assumes "match_here pat (c # s) = None"
  shows "re_search pat (c # s) = re_search pat s"
proof -
  have "[0 ..< Suc (Suc (length s))] = 0 # [Suc 0 ..< Suc (Suc (length s))]"
    by (rule upt_conv_Cons) simp
  also have "[Suc 0 ..< Suc (Suc (length s))] = map Suc [0 ..< Suc (length s)]"
    by (rule map_Suc_upt [symmetric])
  finally have "[0 ..< Suc (Suc (length s))] = 0 # map Suc [0 ..< Suc (length s)]" .
  then show ?thesis using assms by (simp add: re_search_def first_some_map del: upt_Suc)
qed

lemma match_here_no_alt:
  "filter (startswith s) ws = [] \<Longrightarrow> match_here (Group (Alt ws) # rest) s = None"
  by simp

lemma match_here_first:
  "atom_lens (atom_of it) s = k # ks \<Longrightarrow> match_here rest (drop k s) = Some gs \<Longrightarrow>
     match_here (it # rest) s = Some (if captures it then take k s # gs else gs)"
  by simp

lemma match_here_Plus_replicate:
  assumes "in_class c x" and "0 < n"
  shows "match_here [Group (Plus c)] (replicate n x) = Some [replicate n x]"
proof -
  have "takeWhile (in_class c) (replicate n x) = replicate n x"
    using assms(1) by (simp add: takeWhile_replicate)
  then have "atom_lens (atom_of (Group (Plus c))) (replicate n x) = rev [1 ..< Suc n]" by simp
  also have "\<dots> = n # rev [1 ..< n]" using assms(2) by simp
  finally have l: "atom_lens (atom_of (Group (Plus c))) (replicate n x) = n # rev [1 ..< n]" .
  have "match_here [] (drop n (replicate n x)) = Some []" by simp
  from match_here_first [OF l this] show ?thesis by simp
qed

lemma long_size_line_addr:
  "re_search addr_pattern long_size_line = Some [ustr ''10.66.66.2'', ustr ''fe80::1'']"
  by (rule re_search_hit)
    (simp add: long_size_line_def addr_pattern_def arrow_def ustr_def whitespace_def)

lemma long_size_line_proto:
  "re_search proto_pattern long_size_line =
     Some [ustr ''TCP'', replicate 4301 (of_char CHR ''1'')]"
proof -
  let ?D = "replicate 4301 (of_char CHR ''1'' :: nat)"
  have d: "in_class Digit (of_char CHR ''1'')"
    by (simp add: decimal_value_def decimal_blocks_def)
  have m3: "match_here [Group (Plus Digit)] ?D = Some [?D]"
    using d by (rule match_here_Plus_replicate) simp
  have l2: "atom_lens (atom_of (Plain (Plus Space))) (32 # ?D) = [1]"
    by (simp add: takeWhile_replicate whitespace_def)
  have "match_here [Group (Plus Digit)] (drop 1 (32 # ?D)) = Some [?D]" using m3 by simp
  from match_here_first [OF l2 this]
  have m2: "match_here [Plain (Plus Space), Group (Plus Digit)] (32 # ?D) = Some [?D]" by simp
  let ?alts = "map ustr [''TCP'', ''UDP'', ''SSL'', ''TLS'', ''HTTP'', ''QUIC'']"
  have l1: "atom_lens (atom_of (Group (Alt ?alts))) (ustr ''TCP '' @ ?D) = [3]"
    by (simp add: ustr_def)
  have "match_here [Plain (Plus Space), Group (Plus Digit)] (drop 3 (ustr ''TCP '' @ ?D)) =
          Some [?D]"
    using m2 by (simp add: ustr_def)
  from match_here_first [OF l1 this]
  have m1: "match_here proto_pattern (ustr ''TCP '' @ ?D) = Some [ustr ''TCP'', ?D]"
    by (simp add: proto_pattern_def ustr_def)
  have "re_search proto_pattern long_size_line = re_search proto_pattern (ustr ''TCP '' @ ?D)"
    by (simp add: long_size_line_def proto_pattern_def arrow_def ustr_def re_search_skip
        match_here_no_alt del: match_here.simps)
  then show ?thesis using re_search_hit [OF m1] by simp
qed

lemma str_nat_4300: "str_nat 4300 = ''4300''"
  by (simp add: str_nat.simps [of 4300] str_nat.simps [of 430] str_nat.simps [of 43]
      str_nat.simps [of 4] char_of_eq_iff)

lemma str_nat_4301: "str_nat 4301 = ''4301''"
  by (simp add: str_nat.simps [of 4301] str_nat.simps [of 430] str_nat.simps [of 43]
      str_nat.simps [of 4] char_of_eq_iff)

lemma short_size_line_parsed:
  "parse_line short_size_line =
     Inr (Some \<lparr>src_ip = ''10.66.66.2'', dst_ip = ''fe80::1'', dst_port = 0,
                 protocol = ''TCP'', size_pkt = 60\<rparr>)"
  by (simp add: short_size_line_def parse_eval)

lemma long_size_line_raises:
  "parse_line long_size_line =
     Inl (ValueError (''Exceeds the limit (4300 digits) for integer string conversion: '' @
            ''value has 4301 digits; use sys.set_int_max_str_digits() to increase the limit''))"
proof -
  have "decimal_value 49 \<noteq> None" by (simp add: decimal_value_def decimal_blocks_def)
  then show ?thesis
    by (simp add: parse_line_def long_size_line_addr long_size_line_proto py_int_def
        int_max_str_digits_def str_nat_4300 str_nat_4301 list_all_iff)
qed

theorem parse_line_fields_and_rejection_witness:
  "re_search addr_pattern short_size_line = Some [ustr ''10.66.66.2'', ustr ''fe80::1''] \<and>
   re_search proto_pattern short_size_line = Some [ustr ''TCP'', ustr ''60''] \<and>
   length (ustr ''60'') \<le> int_max_str_digits \<and>
   re_search port_pattern short_size_line = None \<and>
   (\<exists>n port. py_int (ustr ''60'') = Inr n \<and>
      parse_line short_size_line =
        Inr (Some \<lparr>src_ip = ascii (ustr ''10.66.66.2''), dst_ip = ascii (ustr ''fe80::1''),
                    dst_port = port, protocol = ascii (ustr ''TCP''), size_pkt = n\<rparr>)) \<and>
   re_search proto_pattern unknown_protocol_line = None \<and>
   parse_line unknown_protocol_line = Inr None \<and>
   parse_lines ([short_size_line] @ unknown_protocol_line # [short_size_line]) [] =
     parse_lines ([short_size_line] @ [short_size_line]) [] \<and>
   (\<exists>e. parse_line long_size_line = Inl e) \<and>
   (\<exists>src dst proto sz.
      re_search addr_pattern long_size_line = Some [src, dst] \<and>
      re_search proto_pattern long_size_line = Some [proto, sz] \<and>
      (int_max_str_digits < length sz \<or>
       (\<exists>port. re_search port_pattern long_size_line = Some [port] \<and>
          int_max_str_digits < length port)))"
proof -
  have a: "re_search addr_pattern short_size_line = Some [ustr ''10.66.66.2'', ustr ''fe80::1'']"
    by (simp add: short_size_line_def search_eval)
  have b: "re_search proto_pattern short_size_line = Some [ustr ''TCP'', ustr ''60'']"
    by (simp add: short_size_line_def search_eval)
  have c: "length (ustr ''60'') \<le> int_max_str_digits"
    by (simp add: ustr_def int_max_str_digits_def)
  have d: "re_search port_pattern short_size_line = None"
    by (simp add: short_size_line_def search_eval)
  then have d': "\<forall>port. re_search port_pattern short_size_line = Some [port] \<longrightarrow>
      length port \<le> int_max_str_digits"
    by simp
  have r: "re_search proto_pattern unknown_protocol_line = None"
    by (simp add: unknown_protocol_line_def search_eval)
  obtain e where e: "parse_line long_size_line = Inl e" using long_size_line_raises by blast
  note ok = parse_line_fields_and_rejection
      [of short_size_line "ustr ''10.66.66.2''" "ustr ''fe80::1''" "ustr ''TCP''" "ustr ''60''"
          "[]" "[]" "[]" e]
  note bad = parse_line_fields_and_rejection
      [of unknown_protocol_line "[]" "[]" "[]" "[]" "[short_size_line]" "[short_size_line]"
          "[]" e]
  note raised = parse_line_fields_and_rejection
      [of long_size_line "[]" "[]" "[]" "[]" "[]" "[]" "[]" e]
  from ok a b c d' have 1: "\<exists>n port. py_int (ustr ''60'') = Inr n \<and>
      parse_line short_size_line =
        Inr (Some \<lparr>src_ip = ascii (ustr ''10.66.66.2''), dst_ip = ascii (ustr ''fe80::1''),
                    dst_port = port, protocol = ascii (ustr ''TCP''), size_pkt = n\<rparr>)"
    by blast
  from bad r have 2: "parse_line unknown_protocol_line = Inr None"
    and 3: "parse_lines ([short_size_line] @ unknown_protocol_line # [short_size_line]) [] =
     parse_lines ([short_size_line] @ [short_size_line]) []"
    by blast+
  from raised e have 4: "\<exists>src dst proto sz.
      re_search addr_pattern long_size_line = Some [src, dst] \<and>
      re_search proto_pattern long_size_line = Some [proto, sz] \<and>
      (int_max_str_digits < length sz \<or>
       (\<exists>port. re_search port_pattern long_size_line = Some [port] \<and>
          int_max_str_digits < length port))"
    by blast
  from a b c d 1 r 2 3 e 4 show ?thesis by blast
qed

text \<open>
  Claim C5, as the spec states it: every line that matches the grammar gives a record. A
  line whose size has 4301 digits matches both patterns, and \<open>int\<close> raises
  \<open>ValueError\<close> on its size: no record is appended, the \<open>except\<close> clause ends the
  loop, and a line after it, which alone gives a record, is lost.
\<close>

theorem long_size_raises_counterexample:
  "re_search addr_pattern long_size_line = Some [ustr ''10.66.66.2'', ustr ''fe80::1''] \<and>
   re_search proto_pattern long_size_line =
     Some [ustr ''TCP'', replicate 4301 (of_char CHR ''1'')] \<and>
   parse_line long_size_line =
     Inl (ValueError (''Exceeds the limit (4300 digits) for integer string conversion: '' @
            ''value has 4301 digits; use sys.set_int_max_str_digits() to increase the limit'')) \<and>
   fst (capture_traffic (Stream [short_size_line] None)) =
     [\<lparr>src_ip = ''10.66.66.2'', dst_ip = ''fe80::1'', dst_port = 0,
       protocol = ''TCP'', size_pkt = 60\<rparr>] \<and>
   fst (capture_traffic (Stream [long_size_line, short_size_line] None)) = []"
  by (simp add: long_size_line_addr long_size_line_proto long_size_line_raises
      short_size_line_parsed)

text \<open>
  Claim C3: the port of a packet is the number after the second arrow of the line, the one
  that follows the source port. The search for the port starts at the beginning of the line
  and stops at the first arrow that is followed by a digit, which is the arrow of the
  address pair whenever the destination address begins with a digit: for the line below
  the port recorded is 142, the head of the destination address, and not 443.
\<close>

theorem parse_line_port_of_ipv4_destination:
  "parse_line (ustr ''10.66.66.2 '' @ arrow @ ustr '' 142.250.1.1 TCP 60 54148 '' @ arrow @
               ustr '' 443'') =
     Inr (Some \<lparr>src_ip = ''10.66.66.2'', dst_ip = ''142.250.1.1'', dst_port = 142,
                 protocol = ''TCP'', size_pkt = 60\<rparr>)"
  by (simp add: parse_eval)

subsection \<open>The aggregator\<close>

text \<open>What the loop over the packets leaves in the entry of a destination.\<close>

lemma map_of_dd_update:
  "map_of (dd_update k dflt f d) =
     (map_of d)(k \<mapsto> f (case map_of d k of None \<Rightarrow> dflt | Some v \<Rightarrow> v))"
  by (induction d) (auto simp: fun_eq_iff)

lemma stats_of_count_packet:
  "stats_of (count_packet d p) dst =
     (if outbound (src_ip p) \<and> dst_ip p = dst
      then \<lparr>n_packets = n_packets (stats_of d dst) + 1,
            n_bytes = n_bytes (stats_of d dst) + size_pkt p,
            port_set = insert (dst_port p) (port_set (stats_of d dst))\<rparr>
      else stats_of d dst)"
  by (auto simp: stats_of_def count_packet_def map_of_dd_update split: option.splits)

lemma stats_of_foldl:
  "stats_of (foldl count_packet d pkts) dst =
     \<lparr>n_packets = n_packets (stats_of d dst) + length (sent_to dst pkts),
      n_bytes = n_bytes (stats_of d dst) + sum_list (map size_pkt (sent_to dst pkts)),
      port_set = port_set (stats_of d dst) \<union> dst_port ` set (sent_to dst pkts)\<rparr>"
proof (induction pkts arbitrary: d)
  case Nil
  then show ?case by (simp add: sent_to_def)
next
  case (Cons p pkts)
  show ?case
    unfolding foldl_Cons Cons.IH stats_of_count_packet
    by (auto simp: sent_to_def)
qed

lemma stats_of_aggregate:
  "stats_of (aggregate pkts) dst =
     \<lparr>n_packets = length (sent_to dst pkts),
      n_bytes = sum_list (map size_pkt (sent_to dst pkts)),
      port_set = dst_port ` set (sent_to dst pkts)\<rparr>"
  by (simp add: aggregate_def stats_of_foldl) (simp add: stats_of_def)

text \<open>
  Claim C9: for every destination, two outbound records of sizes \<open>a\<close> and \<open>b\<close> give
  the same byte total as one record of size \<open>a + b\<close> in their place, whatever comes
  before and after them; the packet count grows by two for the two records and by one for
  the one; and the port set gains the ports of the two records, as a set.
\<close>

theorem aggregation_additive:
  assumes "outbound (src_ip p1)" and "outbound (src_ip p2)" and "outbound (src_ip p)"
    and "dst_ip p1 = dst" and "dst_ip p2 = dst" and "dst_ip p = dst"
    and "size_pkt p = size_pkt p1 + size_pkt p2"
  shows "n_bytes (stats_of (aggregate (before @ [p1, p2] @ after)) dst) =
           n_bytes (stats_of (aggregate (before @ [p] @ after)) dst) \<and>
         n_packets (stats_of (aggregate (before @ [p1, p2] @ after)) dst) =
           n_packets (stats_of (aggregate (before @ after)) dst) + 2 \<and>
         n_packets (stats_of (aggregate (before @ [p] @ after)) dst) =
           n_packets (stats_of (aggregate (before @ after)) dst) + 1 \<and>
         port_set (stats_of (aggregate (before @ [p1, p2] @ after)) dst) =
           port_set (stats_of (aggregate (before @ after)) dst) \<union> {dst_port p1, dst_port p2}"
  using assms by (auto simp: stats_of_aggregate sent_to_def)

theorem aggregation_additive_witness:
  "n_bytes (stats_of (aggregate ([] @
      [\<lparr>src_ip = ''10.66.66.2'', dst_ip = ''20.1.2.3'', dst_port = 443,
         protocol = ''TCP'', size_pkt = 100\<rparr>,
       \<lparr>src_ip = ''10.66.66.2'', dst_ip = ''20.1.2.3'', dst_port = 443,
         protocol = ''TCP'', size_pkt = 50\<rparr>] @ [])) ''20.1.2.3'') =
   n_bytes (stats_of (aggregate ([] @
      [\<lparr>src_ip = ''10.66.66.2'', dst_ip = ''20.1.2.3'', dst_port = 443,
         protocol = ''TCP'', size_pkt = 150\<rparr>] @ [])) ''20.1.2.3'') \<and>
   n_packets (stats_of (aggregate ([] @
      [\<lparr>src_ip = ''10.66.66.2'', dst_ip = ''20.1.2.3'', dst_port = 443,
         protocol = ''TCP'', size_pkt = 100\<rparr>,
       \<lparr>src_ip = ''10.66.66.2'', dst_ip = ''20.1.2.3'', dst_port = 443,
         protocol = ''TCP'', size_pkt = 50\<rparr>] @ [])) ''20.1.2.3'') = 2 \<and>
   n_packets (stats_of (aggregate ([] @
      [\<lparr>src_ip = ''10.66.66.2'', dst_ip = ''20.1.2.3'', dst_port = 443,
         protocol = ''TCP'', size_pkt = 150\<rparr>] @ [])) ''20.1.2.3'') = 1 \<and>
   port_set (stats_of (aggregate ([] @
      [\<lparr>src_ip = ''10.66.66.2'', dst_ip = ''20.1.2.3'', dst_port = 443,
         protocol = ''TCP'', size_pkt = 100\<rparr>,
       \<lparr>src_ip = ''10.66.66.2'', dst_ip = ''20.1.2.3'', dst_port = 443,
         protocol = ''TCP'', size_pkt = 50\<rparr>] @ [])) ''20.1.2.3'') = {443}"
proof -
  let ?p1 = "\<lparr>src_ip = ''10.66.66.2'', dst_ip = ''20.1.2.3'', dst_port = 443,
         protocol = ''TCP'', size_pkt = 100\<rparr>"
  let ?p2 = "\<lparr>src_ip = ''10.66.66.2'', dst_ip = ''20.1.2.3'', dst_port = 443,
         protocol = ''TCP'', size_pkt = 50\<rparr>"
  let ?p = "\<lparr>src_ip = ''10.66.66.2'', dst_ip = ''20.1.2.3'', dst_port = 443,
         protocol = ''TCP'', size_pkt = 150\<rparr>"
  have o: "outbound ''10.66.66.2''" by code_simp
  have e: "stats_of (aggregate []) ''20.1.2.3'' = \<lparr>n_packets = 0, n_bytes = 0, port_set = {}\<rparr>"
    by (simp add: aggregate_def stats_of_def)
  from aggregation_additive [of ?p1 ?p2 ?p "''20.1.2.3''" "[]" "[]"] o e
  show ?thesis by simp
qed

subsection \<open>The summary builder\<close>

lemma categorize_cloudflare_dns: "categorize_activity ''Cloudflare DNS'' = ''cloud''"
  by code_simp

text \<open>
  Claim C4, as the spec states it: one outbound record to \<open>1.1.1.1\<close> gives one connection
  of category \<open>other\<close>. The keyword \<open>cloudflare\<close> of the category \<open>cloud\<close> occurs in
  the lowercased service name, and no earlier category has a keyword that does.
\<close>

theorem cloudflare_dns_category_counterexample:
  "map category (connections (summarize_traffic ''2026-01-01T00:00:00''
      [\<lparr>src_ip = ''10.66.66.2'', dst_ip = ''1.1.1.1'', dst_port = 53,
        protocol = ''UDP'', size_pkt = 64\<rparr>])) \<noteq> [''other'']"
  by code_simp

text \<open>
  Claim C4, amended: one outbound record of protocol UDP and size 64 whose destination
  resolves to \<open>Cloudflare DNS\<close> gives exactly one connection, with service
  \<open>Cloudflare DNS\<close>, category \<open>cloud\<close>, packet count 1 and byte count 64.
\<close>

theorem single_cloudflare_dns_record:
  assumes "outbound (src_ip p)"
    and "identify_service (dst_ip p) = Some ''Cloudflare DNS''"
    and "protocol p = ''UDP''" and "size_pkt p = 64"
  shows "connections (summarize_traffic now [p]) =
           [\<lparr>ip = dst_ip p, service = ''Cloudflare DNS'', category = ''cloud'',
             packets = 1, bytes = 64, ports = [dst_port p]\<rparr>]"
  using assms
  by (simp add: summarize_traffic_def aggregate_def count_packet_def all_connections_def
      sorted_desc_def make_connection_def categorize_cloudflare_dns Let_def)

theorem single_cloudflare_dns_record_witness:
  "connections (summarize_traffic ''2026-01-01T00:00:00''
      [\<lparr>src_ip = ''10.66.66.2'', dst_ip = ''1.1.1.1'', dst_port = 53,
        protocol = ''UDP'', size_pkt = 64\<rparr>]) =
   [\<lparr>ip = ''1.1.1.1'', service = ''Cloudflare DNS'', category = ''cloud'',
     packets = 1, bytes = 64, ports = [53]\<rparr>]"
proof -
  let ?p = "\<lparr>src_ip = ''10.66.66.2'', dst_ip = ''1.1.1.1'', dst_port = 53,
        protocol = ''UDP'', size_pkt = 64\<rparr>"
  have 1: "outbound (src_ip ?p)" by code_simp
  have 2: "identify_service (dst_ip ?p) = Some ''Cloudflare DNS''" by code_simp
  show ?thesis
    using single_cloudflare_dns_record [OF 1 2, of "''2026-01-01T00:00:00''"] by simp
qed

text \<open>
  Claim C2, as the spec states it: a batch of which no record is aggregated gives the fixed
  empty summary. The test of \<open>summarize_traffic\<close> is on the batch, not on what was
  aggregated: one record from an address outside the outbound prefixes is counted in the
  total and the text is \<open>Minimal activity\<close>.
\<close>

theorem summarize_inbound_only_counterexample:
  "\<not> outbound ''142.250.1.1'' \<and>
   total_packets (summarize_traffic ''2026-01-01T00:00:00''
     [\<lparr>src_ip = ''142.250.1.1'', dst_ip = ''10.66.66.2'', dst_port = 443,
       protocol = ''TCP'', size_pkt = 60\<rparr>]) = 1 \<and>
   activity_summary (summarize_traffic ''2026-01-01T00:00:00''
     [\<lparr>src_ip = ''142.250.1.1'', dst_ip = ''10.66.66.2'', dst_port = 443,
       protocol = ''TCP'', size_pkt = 60\<rparr>]) = ''Minimal activity''"
  by code_simp

text \<open>
  Claim C2, amended: a batch of which no record is aggregated gives a summary with no
  bytes, no destinations and no connections, whose packet count is the number of records
  of the batch; its text is \<open>No traffic captured\<close> for the empty batch and
  \<open>Minimal activity\<close> for any other.
\<close>

lemma aggregate_none_outbound:
  "\<forall>p \<in> set pkts. \<not> outbound (src_ip p) \<Longrightarrow> foldl count_packet d pkts = d"
  by (induction pkts arbitrary: d) (auto simp: count_packet_def)

lemma activity_text_Nil: "activity_text [] = ''Minimal activity''"
  by (simp add: activity_text_def category_bytes_def sorted_desc_def)

theorem summarize_nothing_aggregated:
  assumes "\<forall>p \<in> set pkts. \<not> outbound (src_ip p)"
  shows "summarize_traffic now pkts =
           \<lparr>generated_at = now, total_packets = length pkts, total_bytes = 0,
            unique_destinations = 0, connections = [],
            activity_summary =
              (if pkts = [] then ''No traffic captured'' else ''Minimal activity'')\<rparr>"
  using aggregate_none_outbound [OF assms, of "[]"]
  by (simp add: summarize_traffic_def aggregate_def all_connections_def sorted_desc_def
      activity_text_Nil)

theorem summarize_nothing_aggregated_witness:
  "\<not> outbound ''142.250.1.1'' \<and>
   summarize_traffic ''2026-01-01T00:00:00''
     [\<lparr>src_ip = ''142.250.1.1'', dst_ip = ''10.66.66.2'', dst_port = 443,
       protocol = ''TCP'', size_pkt = 60\<rparr>] =
     \<lparr>generated_at = ''2026-01-01T00:00:00'', total_packets = 1, total_bytes = 0,
      unique_destinations = 0, connections = [], activity_summary = ''Minimal activity''\<rparr> \<and>
   summarize_traffic ''2026-01-01T00:00:00'' [] =
     \<lparr>generated_at = ''2026-01-01T00:00:00'', total_packets = 0, total_bytes = 0,
      unique_destinations = 0, connections = [], activity_summary = ''No traffic captured''\<rparr>"
proof -
  let ?p = "\<lparr>src_ip = ''142.250.1.1'', dst_ip = ''10.66.66.2'', dst_port = 443,
       protocol = ''TCP'', size_pkt = 60\<rparr>"
  have n: "\<not> outbound ''142.250.1.1''" by code_simp
  then have h: "\<forall>p \<in> set [?p]. \<not> outbound (src_ip p)" by simp
  have e: "\<forall>p \<in> set ([] :: packet list). \<not> outbound (src_ip p)" by simp
  show ?thesis
    using n summarize_nothing_aggregated [OF h, of "''2026-01-01T00:00:00''"]
      summarize_nothing_aggregated [OF e, of "''2026-01-01T00:00:00''"]
    by simp
qed

text \<open>Sums, keys and order of the statistics and of the connections.\<close>

lemma foldl_count_packet_filter:
  "foldl count_packet d pkts = foldl count_packet d (filter (\<lambda>p. outbound (src_ip p)) pkts)"
  by (induction pkts arbitrary: d) (auto simp: count_packet_def)

lemma aggregate_filter: "aggregate pkts = aggregate (filter (\<lambda>p. outbound (src_ip p)) pkts)"
  unfolding aggregate_def by (rule foldl_count_packet_filter)

lemma sum_dd_update:
  assumes "g dflt = 0" and "\<And>v. g (f v) = g v + c"
  shows "sum_list (map (\<lambda>e. g (snd e)) (dd_update k dflt f d)) =
           sum_list (map (\<lambda>e. g (snd e)) d) + (c::nat)"
  using assms by (induction d) auto

lemma sum_bytes_foldl:
  "sum_list (map (\<lambda>e. n_bytes (snd e)) (foldl count_packet d pkts)) =
     sum_list (map (\<lambda>e. n_bytes (snd e)) d) +
     sum_list (map size_pkt (filter (\<lambda>p. outbound (src_ip p)) pkts))"
proof (induction pkts arbitrary: d)
  case Nil
  then show ?case by simp
next
  case (Cons p pkts)
  have "sum_list (map (\<lambda>e. n_bytes (snd e)) (count_packet d p)) =
          sum_list (map (\<lambda>e. n_bytes (snd e)) d) + (if outbound (src_ip p) then size_pkt p else 0)"
    by (simp add: count_packet_def sum_dd_update)
  then show ?case by (simp add: Cons.IH)
qed

lemma sum_packets_foldl:
  "sum_list (map (\<lambda>e. n_packets (snd e)) (foldl count_packet d pkts)) =
     sum_list (map (\<lambda>e. n_packets (snd e)) d) +
     length (filter (\<lambda>p. outbound (src_ip p)) pkts)"
proof (induction pkts arbitrary: d)
  case Nil
  then show ?case by simp
next
  case (Cons p pkts)
  have "sum_list (map (\<lambda>e. n_packets (snd e)) (count_packet d p)) =
          sum_list (map (\<lambda>e. n_packets (snd e)) d) + (if outbound (src_ip p) then 1 else 0)"
    by (simp add: count_packet_def sum_dd_update)
  then show ?case by (simp add: Cons.IH)
qed

lemma distinct_keys_dd_update:
  "distinct (map fst d) \<Longrightarrow> distinct (map fst (dd_update k dflt f d))"
  by (simp add: keys_dd_update)

lemma set_keys_dd_update: "fst ` set (dd_update k dflt f d) = insert k (fst ` set d)"
proof -
  have "set (map fst (dd_update k dflt f d)) = insert k (set (map fst d))"
    unfolding keys_dd_update by auto
  then show ?thesis by simp
qed

lemma keys_foldl_count_packet:
  "distinct (map fst d) \<Longrightarrow>
     distinct (map fst (foldl count_packet d pkts)) \<and>
     fst ` set (foldl count_packet d pkts) =
       fst ` set d \<union> dst_ip ` set (filter (\<lambda>p. outbound (src_ip p)) pkts)"
proof (induction pkts arbitrary: d)
  case Nil
  then show ?case by simp
next
  case (Cons p pkts)
  have d: "distinct (map fst (count_packet d p))"
    using Cons.prems by (simp add: count_packet_def distinct_keys_dd_update)
  have s: "fst ` set (count_packet d p) =
             (if outbound (src_ip p) then insert (dst_ip p) (fst ` set d) else fst ` set d)"
    by (simp add: count_packet_def set_keys_dd_update)
  from Cons.IH [OF d] s show ?case by auto
qed

lemma length_aggregate:
  "length (aggregate pkts) = card (dst_ip ` set (filter (\<lambda>p. outbound (src_ip p)) pkts))"
proof -
  have k: "distinct (map fst (aggregate pkts))"
    and s: "fst ` set (aggregate pkts) = dst_ip ` set (filter (\<lambda>p. outbound (src_ip p)) pkts)"
    using keys_foldl_count_packet [of "[]" pkts] by (simp_all add: aggregate_def)
  have "length (aggregate pkts) = length (map fst (aggregate pkts))" by simp
  also have "\<dots> = card (set (map fst (aggregate pkts)))"
    using k by (simp only: distinct_card)
  finally show ?thesis using s by simp
qed

lemma sum_list_insort_key:
  "sum_list (map g (insort_key k x xs)) = g x + sum_list (map (g :: 'a \<Rightarrow> nat) xs)"
  by (induction xs) auto

lemma sum_list_sort_key: "sum_list (map g (sort_key k xs)) = sum_list (map (g :: 'a \<Rightarrow> nat) xs)"
  by (induction xs) (auto simp: sum_list_insort_key)

lemma sum_list_sorted_desc:
  "sum_list (map g (sorted_desc k xs)) = sum_list (map (g :: 'a \<Rightarrow> nat) xs)"
proof -
  have "sum_list (map g (sorted_desc k xs)) = sum_list (rev (map g (sort_key k (rev xs))))"
    by (simp add: sorted_desc_def rev_map)
  also have "\<dots> = sum_list (map g (rev xs))"
    by (simp only: sum_list_rev sum_list_sort_key)
  also have "\<dots> = sum_list (map g xs)"
    by (simp only: rev_map [symmetric] sum_list_rev)
  finally show ?thesis .
qed

lemma sorted_desc_sorted: "sorted_wrt (\<lambda>a b. k b \<le> k a) (sorted_desc k xs)"
proof -
  have "sorted (map k (sort_key k (rev xs)))" by (rule sorted_sort_key)
  then have "sorted_wrt (\<lambda>a b. k a \<le> k b) (sort_key k (rev xs))"
    by (simp add: sorted_map)
  then show ?thesis by (simp add: sorted_desc_def sorted_wrt_rev)
qed

lemma bytes_make_connection [simp]: "bytes (make_connection e) = n_bytes (snd e)"
  by (simp add: make_connection_def Let_def)

lemma packets_make_connection [simp]: "packets (make_connection e) = n_packets (snd e)"
  by (simp add: make_connection_def Let_def)

lemma all_connections_sorted:
  "sorted_wrt (\<lambda>a b. bytes b \<le> bytes a) (all_connections ip_stats)"
  using sorted_desc_sorted [of "\<lambda>e. n_bytes (snd e)" ip_stats]
  by (simp add: all_connections_def sorted_wrt_map)

lemma sum_bytes_all_connections:
  "sum_list (map bytes (all_connections ip_stats)) =
     sum_list (map (\<lambda>e. n_bytes (snd e)) ip_stats)"
  by (simp add: all_connections_def comp_def sum_list_sorted_desc)

lemma sum_packets_all_connections:
  "sum_list (map packets (all_connections ip_stats)) =
     sum_list (map (\<lambda>e. n_packets (snd e)) ip_stats)"
  by (simp add: all_connections_def comp_def sum_list_sorted_desc)

lemma sum_list_take_le: "sum_list (take n xs) \<le> sum_list (xs :: nat list)"
proof -
  have "sum_list xs = sum_list (take n xs) + sum_list (drop n xs)"
    by (simp only: sum_list_append [symmetric] append_take_drop_id)
  then show ?thesis by simp
qed

lemma connections_filter:
  "connections (summarize_traffic now pkts) =
     connections (summarize_traffic now (filter (\<lambda>p. outbound (src_ip p)) pkts))"
proof (cases "filter (\<lambda>p. outbound (src_ip p)) pkts = []")
  case True
  then have "\<forall>p \<in> set pkts. \<not> outbound (src_ip p)" by (simp add: filter_empty_conv)
  then have "aggregate pkts = []" using aggregate_none_outbound [of pkts "[]"]
    by (simp add: aggregate_def)
  with True show ?thesis
    by (simp add: summarize_traffic_def all_connections_def sorted_desc_def Let_def)
next
  case False
  then have "pkts \<noteq> []" by auto
  with False show ?thesis using aggregate_filter [of pkts]
    by (simp add: summarize_traffic_def Let_def)
qed

text \<open>
  Claim C10: for every non-empty batch, \<open>total_packets\<close> is the number of all records,
  whatever their source; \<open>total_bytes\<close>, \<open>unique_destinations\<close> and the connections are
  those of the outbound records alone; so the packet counts of the connections add up to
  at most the number of outbound records, and to less than \<open>total_packets\<close> as soon as
  one record is not outbound.
\<close>

theorem total_packets_counts_every_record:
  assumes "pkts \<noteq> []"
  shows "total_packets (summarize_traffic now pkts) = length pkts \<and>
         total_bytes (summarize_traffic now pkts) =
           sum_list (map size_pkt (filter (\<lambda>p. outbound (src_ip p)) pkts)) \<and>
         unique_destinations (summarize_traffic now pkts) =
           card (dst_ip ` set (filter (\<lambda>p. outbound (src_ip p)) pkts)) \<and>
         connections (summarize_traffic now pkts) =
           connections (summarize_traffic now (filter (\<lambda>p. outbound (src_ip p)) pkts)) \<and>
         sum_list (map packets (connections (summarize_traffic now pkts))) \<le>
           length (filter (\<lambda>p. outbound (src_ip p)) pkts) \<and>
         ((\<exists>q \<in> set pkts. \<not> outbound (src_ip q)) \<longrightarrow>
            sum_list (map packets (connections (summarize_traffic now pkts))) <
              total_packets (summarize_traffic now pkts))"
proof -
  let ?s = "summarize_traffic now pkts"
  let ?out = "filter (\<lambda>p. outbound (src_ip p)) pkts"
  have tp: "total_packets ?s = length pkts"
    using assms by (simp add: summarize_traffic_def Let_def)
  have tb: "total_bytes ?s = sum_list (map size_pkt ?out)"
    using assms sum_bytes_foldl [of "[]" pkts]
    by (simp add: summarize_traffic_def Let_def sum_bytes_all_connections aggregate_def)
  have ud: "unique_destinations ?s = card (dst_ip ` set ?out)"
    using assms by (simp add: summarize_traffic_def Let_def length_aggregate)
  have "sum_list (map packets (connections ?s)) \<le>
          sum_list (map packets (all_connections (aggregate pkts)))"
    using assms sum_list_take_le [of 20 "map packets (all_connections (aggregate pkts))"]
    by (simp add: summarize_traffic_def Let_def take_map)
  also have "\<dots> = length ?out"
    using sum_packets_foldl [of "[]" pkts]
    by (simp add: sum_packets_all_connections aggregate_def)
  finally have sp: "sum_list (map packets (connections ?s)) \<le> length ?out" .
  have lt: "length ?out < length pkts" if "\<exists>q \<in> set pkts. \<not> outbound (src_ip q)"
    using that length_filter_less [of _ pkts "\<lambda>p. outbound (src_ip p)"] by blast
  from tp tb ud sp lt connections_filter [of now pkts] show ?thesis
    by (metis (lifting) le_less_trans)
qed

theorem total_packets_counts_every_record_witness:
  "[\<lparr>src_ip = ''10.66.66.2'', dst_ip = ''20.1.2.3'', dst_port = 443,
      protocol = ''TCP'', size_pkt = 100\<rparr>,
    \<lparr>src_ip = ''20.1.2.3'', dst_ip = ''10.66.66.2'', dst_port = 443,
      protocol = ''TCP'', size_pkt = 900\<rparr>] \<noteq> [] \<and>
   \<not> outbound ''20.1.2.3'' \<and>
   total_packets (summarize_traffic ''2026-01-01T00:00:00''
     [\<lparr>src_ip = ''10.66.66.2'', dst_ip = ''20.1.2.3'', dst_port = 443,
        protocol = ''TCP'', size_pkt = 100\<rparr>,
      \<lparr>src_ip = ''20.1.2.3'', dst_ip = ''10.66.66.2'', dst_port = 443,
        protocol = ''TCP'', size_pkt = 900\<rparr>]) = 2 \<and>
   total_bytes (summarize_traffic ''2026-01-01T00:00:00''
     [\<lparr>src_ip = ''10.66.66.2'', dst_ip = ''20.1.2.3'', dst_port = 443,
        protocol = ''TCP'', size_pkt = 100\<rparr>,
      \<lparr>src_ip = ''20.1.2.3'', dst_ip = ''10.66.66.2'', dst_port = 443,
        protocol = ''TCP'', size_pkt = 900\<rparr>]) = 100 \<and>
   sum_list (map packets (connections (summarize_traffic ''2026-01-01T00:00:00''
     [\<lparr>src_ip = ''10.66.66.2'', dst_ip = ''20.1.2.3'', dst_port = 443,
        protocol = ''TCP'', size_pkt = 100\<rparr>,
      \<lparr>src_ip = ''20.1.2.3'', dst_ip = ''10.66.66.2'', dst_port = 443,
        protocol = ''TCP'', size_pkt = 900\<rparr>]))) < 2"
proof -
  let ?b = "[\<lparr>src_ip = ''10.66.66.2'', dst_ip = ''20.1.2.3'', dst_port = 443,
      protocol = ''TCP'', size_pkt = 100\<rparr>,
    \<lparr>src_ip = ''20.1.2.3'', dst_ip = ''10.66.66.2'', dst_port = 443,
      protocol = ''TCP'', size_pkt = 900\<rparr>]"
  have n: "?b \<noteq> []" by simp
  have o: "outbound ''10.66.66.2''" by code_simp
  have i: "\<not> outbound ''20.1.2.3''" by code_simp
  note th = total_packets_counts_every_record [OF n, of "''2026-01-01T00:00:00''"]
  from th have tp: "total_packets (summarize_traffic ''2026-01-01T00:00:00'' ?b) = length ?b"
    by (rule conjunct1)
  from th have tb: "total_bytes (summarize_traffic ''2026-01-01T00:00:00'' ?b) =
      sum_list (map size_pkt (filter (\<lambda>p. outbound (src_ip p)) ?b))"
    by blast
  from th have lt: "(\<exists>q \<in> set ?b. \<not> outbound (src_ip q)) \<longrightarrow>
      sum_list (map packets (connections (summarize_traffic ''2026-01-01T00:00:00'' ?b))) <
        total_packets (summarize_traffic ''2026-01-01T00:00:00'' ?b)"
    by blast
  from tp tb lt o i show ?thesis by simp
qed

text \<open>The bytes that the loop over the connections gives to a category.\<close>

lemma map_of_category_foldl:
  "map_of (foldl (\<lambda>d conn. dd_update (category conn) 0 (\<lambda>b. b + bytes conn) d) d conns) cat =
     (case map_of d cat of
        None \<Rightarrow> if cat \<in> category ` set conns then Some (category_sum cat conns) else None
      | Some b \<Rightarrow> Some (b + category_sum cat conns))"
proof (induction conns arbitrary: d)
  case Nil
  then show ?case by (simp add: category_sum_def split: option.splits)
next
  case (Cons c conns)
  show ?case
    unfolding foldl_Cons Cons.IH map_of_dd_update
    by (auto simp: category_sum_def split: option.splits)
qed

lemma map_of_category_bytes:
  "map_of (category_bytes conns) cat =
     (if cat \<in> category ` set conns then Some (category_sum cat conns) else None)"
  by (simp add: category_bytes_def map_of_category_foldl)

text \<open>
  Claim C6: when something was aggregated, the connections of the summary are the first
  twenty of all the connections, which are in descending order of bytes, while the total,
  the bytes of each category and the text of the activity summary are those of all the
  connections.
\<close>

theorem top_twenty_listed_all_counted:
  assumes "aggregate pkts \<noteq> []"
  shows "connections (summarize_traffic now pkts) = take 20 (all_connections (aggregate pkts)) \<and>
         length (connections (summarize_traffic now pkts)) \<le> 20 \<and>
         sorted_wrt (\<lambda>a b. bytes b \<le> bytes a) (all_connections (aggregate pkts)) \<and>
         total_bytes (summarize_traffic now pkts) =
           sum_list (map bytes (all_connections (aggregate pkts))) \<and>
         activity_summary (summarize_traffic now pkts) =
           activity_text (all_connections (aggregate pkts)) \<and>
         map_of (category_bytes (all_connections (aggregate pkts))) cat =
           (if cat \<in> category ` set (all_connections (aggregate pkts))
            then Some (category_sum cat (all_connections (aggregate pkts))) else None)"
proof -
  from assms have "pkts \<noteq> []" by (auto simp: aggregate_def)
  then show ?thesis
    by (simp add: summarize_traffic_def Let_def all_connections_sorted map_of_category_bytes)
qed

lemma twenty_one_connections:
  "all_connections (aggregate twenty_one_destinations) =
     map (\<lambda>n. \<lparr>ip = ''8.8.8.'' @ str_nat n, service = ''Unknown'', category = ''other'',
                packets = 1, bytes = 2, ports = [443]\<rparr>) [1 ..< 21] @
     [\<lparr>ip = ''142.250.0.1'', service = ''Google'', category = ''search'',
       packets = 1, bytes = 1, ports = [443]\<rparr>]"
  by code_simp

theorem top_twenty_listed_all_counted_witness:
  "aggregate twenty_one_destinations \<noteq> [] \<and>
   connections (summarize_traffic ''2026-01-01T00:00:00'' twenty_one_destinations) =
     take 20 (all_connections (aggregate twenty_one_destinations)) \<and>
   length (all_connections (aggregate twenty_one_destinations)) = 21 \<and>
   activity_summary (summarize_traffic ''2026-01-01T00:00:00'' twenty_one_destinations) =
     ''other: 98% | search: 2%'' \<and>
   activity_text (take 20 (all_connections (aggregate twenty_one_destinations))) =
     ''other: 100%''"
proof -
  have h: "aggregate twenty_one_destinations \<noteq> []" by code_simp
  have l: "length (all_connections (aggregate twenty_one_destinations)) = 21"
    unfolding twenty_one_connections by simp
  have a: "activity_text (all_connections (aggregate twenty_one_destinations)) =
             ''other: 98% | search: 2%''"
    unfolding twenty_one_connections by code_simp
  have b: "activity_text (take 20 (all_connections (aggregate twenty_one_destinations))) =
             ''other: 100%''"
    unfolding twenty_one_connections by code_simp
  from top_twenty_listed_all_counted [OF h, of "''2026-01-01T00:00:00''"] h l a b
  show ?thesis by simp
qed

subsection \<open>Floating point\<close>

text \<open>\<open>ilog2\<close> is the exponent of the power of two at or below its argument.\<close>

lemma pow2_powi: "pow2 e = 2 powi e"
  by (simp add: pow2_def power_int_def field_simps)

lemma pow2_pos [simp]: "0 < pow2 e"
  by (simp add: pow2_powi)











text \<open>Rounding to a double is monotone.\<close>

lemma pow2_nonneg [simp]: "0 \<le> pow2 e"
  using pow2_pos [of e] by (simp only: less_imp_le)

lemma pow2_nonzero [simp]: "pow2 e \<noteq> 0"
  by (metis less_irrefl pow2_pos)

lemma round_half_even_of_int [simp]: "round_half_even (of_int n) = n"
  by (simp add: round_half_even_def)

lemma round_half_even_pow2 [simp]: "round_half_even (2 ^ n) = 2 ^ n"
  using round_half_even_of_int [of "2 ^ n"] by simp

















text \<open>
  Beyond that the computed percentage can be 1 for a share above one hundredth: here the
  bytes are \<open>2\<^sup>5\<^sup>4 + 1\<close> of a total of a hundred times \<open>2\<^sup>5\<^sup>4\<close>.
\<close>

lemma to_double_just_above_hundredth:
  "to_double (3602879701896397 / 360287970189639680) = 5764607523034235 / 576460752303423488"
  by code_simp

lemma to_double_one_and_a_bit: "to_double (144115188075855875 / 144115188075855872) = 1"
  by code_simp

lemma percent_of_huge_total: "percent 18014398509481985 1801439850948198400 = 1"
  by (simp add: percent_def py_truediv_def py_fmul_def to_double_just_above_hundredth
      to_double_one_and_a_bit)

subsection \<open>The activity summary\<close>




lemma set_sorted_desc [simp]: "set (sorted_desc k xs) = set xs"
  by (simp add: sorted_desc_def)

















subsection \<open>The entry point\<close>

text \<open>
  Claim C8: when the capture program cannot be started, \<open>capture_traffic\<close> returns no
  packet and reports the failure on the standard error; the summary built from its result
  is the empty one, and \<open>main\<close> ends by writing it (the directory and the output file
  being writable, as for any other run).
\<close>

theorem capture_start_failure_gives_empty_summary:
  assumes "run w = StartFailed e"
  shows "capture_traffic (run w) = ([], [report e]) \<and>
         summarize_traffic (clock w) (fst (capture_traffic (run w))) =
           \<lparr>generated_at = clock w, total_packets = 0, total_bytes = 0,
            unique_destinations = 0, connections = [],
            activity_summary = ''No traffic captured''\<rparr> \<and>
         (mkdir_error w = None \<and> write_error w = None \<longrightarrow>
            main w = Inr \<lparr>generated_at = clock w, total_packets = 0, total_bytes = 0,
                           unique_destinations = 0, connections = [],
                           activity_summary = ''No traffic captured''\<rparr>)"
  using assms by (simp add: main_def summarize_traffic_def)

theorem capture_start_failure_gives_empty_summary_witness:
  "main \<lparr>mkdir_error = None,
         run = StartFailed (OSError ''[Errno 2] No such file or directory: tshark''),
         clock = ''2026-01-01T00:00:00'', write_error = None\<rparr> =
     Inr \<lparr>generated_at = ''2026-01-01T00:00:00'', total_packets = 0, total_bytes = 0,
          unique_destinations = 0, connections = [],
          activity_summary = ''No traffic captured''\<rparr>"
  using capture_start_failure_gives_empty_summary
    [of "\<lparr>mkdir_error = None,
         run = StartFailed (OSError ''[Errno 2] No such file or directory: tshark''),
         clock = ''2026-01-01T00:00:00'', write_error = None\<rparr>"
        "OSError ''[Errno 2] No such file or directory: tshark''"]
  by simp

end
